theory Spec2Isabelle
  imports Complex_Main "HOL-Library.AList"
begin

section \<open>The joystick panel of JoyPanel.tsx\<close>

text \<open>
  A shallow embedding of \<^verbatim>\<open>src/JoyPanel.tsx\<close>: the key table built from the keyboard
  mapping, the two key handlers, the effects that build a \<^verbatim>\<open>Joy\<close> frame from the
  replayed topic, the gamepad, the keyboard and the interactive view, and the effects that
  advertise and publish. JavaScript numbers that the panel uses as indices and key values
  are integers here (\<^typ>\<open>int\<close>); axis values are \<^typ>\<open>real\<close>, on which
  copying, negation and the sums of \<open>+1\<close>/\<open>-1\<close> of the panel are exact.
\<close>

subsection \<open>Data\<close>

text \<open>The type \<^verbatim>\<open>KbMap\<close> of the source, field by field.\<close>

record KbMap =
  button :: int
  axis :: int
  direction :: int
  "value" :: int

text \<open>
  One value of \<^verbatim>\<open>Object.entries(kbmapping1)\<close>. The file
  \<^verbatim>\<open>components/kbmapping1.json\<close> is not among the sources, so the list of its
  entries is a parameter of the model; the initializer reads the three fields below.
\<close>

record KbDef =
  def_button :: int
  def_axis :: int
  def_direction :: string

text \<open>
  A JavaScript \<^verbatim>\<open>Map\<close> from key names to \<^verbatim>\<open>KbMap\<close> objects iterates in insertion
  order and holds every key once: an association list, with \<^const>\<open>AList.update\<close> for
  \<^verbatim>\<open>Map.set\<close> (an existing key keeps its place, a new one goes last).
\<close>

type_synonym KeyMap = "(string \<times> KbMap) list"

definition has :: "KeyMap \<Rightarrow> string \<Rightarrow> bool" where
  "has m key = (map_of m key \<noteq> None)"

text \<open>The message type \<^verbatim>\<open>Joy\<close> (\<^verbatim>\<open>sensor_msgs/Joy\<close>) with its header.\<close>

record Time =
  sec :: int
  nsec :: int

record Header =
  stamp :: Time
  frame_id :: string

record Joy =
  header :: Header
  axes :: "real list"
  buttons :: "int list"

subsection \<open>The key table and the key handlers\<close>

text \<open>
  The initializer of \<^verbatim>\<open>trackedKeys\<close> (lines 32 to 45): one entry per key of the mapping,
  the indices copied, the direction \<open>1\<close> for \<^verbatim>\<open>"+"\<close> and \<open>0\<close> for anything else,
  the value \<open>0\<close>. It checks nothing and raises nothing, so its result is a plain table.
  The state cell it fills has the type \<^verbatim>\<open>Map | undefined\<close>, hence the \<open>option\<close> in the
  handlers below.
\<close>

definition trackedKeys_entry :: "KbDef \<Rightarrow> KbMap" where
  "trackedKeys_entry v =
     \<lparr>button = def_button v, axis = def_axis v,
      direction = (if def_direction v = ''+'' then 1 else 0), value = 0\<rparr>"

definition trackedKeys_init :: "(string \<times> KbDef) list \<Rightarrow> KeyMap" where
  "trackedKeys_init entries =
     foldl (\<lambda>keyMap (key, v). AList.update key (trackedKeys_entry v) keyMap) [] entries"

text \<open>
  \<^verbatim>\<open>handleKeyDown\<close> and \<^verbatim>\<open>handleKeyUp\<close> (lines 146 to 172), as the functions they
  pass to \<^verbatim>\<open>setTrackedKeys\<close>. For a tracked key the result is a new map (a new object
  identity, which \<open>keys_fresh\<close> below records); otherwise the old state is returned as
  it is. The source copies the map shallowly and assigns the field of the shared entry; the
  old map is not read again once the new one is the state, so the model passes the state.
\<close>

definition handleKeyDown :: "string \<Rightarrow> KeyMap option \<Rightarrow> KeyMap option" where
  "handleKeyDown key oldTrackedKeys =
     (case oldTrackedKeys of
        None \<Rightarrow> None
      | Some m \<Rightarrow>
          if has m key then Some (AList.map_entry key (\<lambda>k. k\<lparr>value := 1\<rparr>) m)
          else Some m)"

definition handleKeyUp :: "string \<Rightarrow> KeyMap option \<Rightarrow> KeyMap option" where
  "handleKeyUp key oldTrackedKeys =
     (case oldTrackedKeys of
        None \<Rightarrow> None
      | Some m \<Rightarrow>
          if has m key then Some (AList.map_entry key (\<lambda>k. k\<lparr>value := 0\<rparr>) m)
          else Some m)"

definition keys_fresh :: "string \<Rightarrow> KeyMap option \<Rightarrow> bool" where
  "keys_fresh key oldTrackedKeys =
     (case oldTrackedKeys of None \<Rightarrow> False | Some m \<Rightarrow> has m key)"

subsection \<open>The keyboard frame\<close>

text \<open>
  The loop \<^verbatim>\<open>while (xs.length <= i) { xs.push(0); }\<close> of lines 201 and 206.
\<close>

function push_zeros :: "'a::zero list \<Rightarrow> int \<Rightarrow> 'a list" where
  "push_zeros xs i = (if int (length xs) \<le> i then push_zeros (xs @ [0]) i else xs)"
  by pat_completeness auto
termination
  by (relation "measure (\<lambda>(xs, i). nat (i + 1 - int (length xs)))") auto

text \<open>
  The body of \<^verbatim>\<open>trackedKeys?.forEach\<close> (lines 199 to 211) on the two arrays. Both
  writes are in range after the loop, so the list operations are those of the arrays.
\<close>

definition forEach_body :: "KbMap \<Rightarrow> real list \<times> int list \<Rightarrow> real list \<times> int list" where
  "forEach_body v ab =
     (case ab of (axes_acc, buttons_acc) \<Rightarrow>
        if button v \<ge> 0 then
          (axes_acc, (push_zeros buttons_acc (button v))[nat (button v) := value v])
        else if axis v \<ge> 0 then
          (let a = push_zeros axes_acc (axis v)
           in (a[nat (axis v) := a ! nat (axis v)
                   + (if direction v > 0 then 1 else -1) * real_of_int (value v)],
               buttons_acc))
        else (axes_acc, buttons_acc))"

definition kb_arrays :: "KeyMap option \<Rightarrow> real list \<times> int list" where
  "kb_arrays trackedKeys =
     (case trackedKeys of
        None \<Rightarrow> ([], [])
      | Some m \<Rightarrow> foldl (\<lambda>ab (key, v). forEach_body v ab) ([], []) m)"

text \<open>
  The keyboard effect (lines 188 to 223): the two guards, the fold over the table, and the
  frame handed to \<^verbatim>\<open>setJoy\<close>. \<open>None\<close> is the early return: no frame is built and
  \<^verbatim>\<open>setJoy\<close> is not called. \<open>now\<close> is the value of \<^verbatim>\<open>fromDate(new Date())\<close>.
\<close>

definition effect_keyboard ::
  "string \<Rightarrow> string \<Rightarrow> bool \<Rightarrow> KeyMap option \<Rightarrow> Time \<Rightarrow> Joy option" where
  "effect_keyboard source frameId enabled trackedKeys now =
     (if source \<noteq> ''keyboard'' then None
      else if \<not> enabled then None
      else Some \<lparr>header = \<lparr>stamp = now, frame_id = frameId\<rparr>,
                 axes = fst (kb_arrays trackedKeys),
                 buttons = snd (kb_arrays trackedKeys)\<rparr>)"

subsection \<open>Configuration, host and the other sources\<close>

text \<open>
  The fields of \<^verbatim>\<open>Config\<close> that the panel reads (the type is declared in
  \<^verbatim>\<open>panelSettings\<close>, which is not among the sources), and the initializer of lines 49
  to 62, which fills each missing field of the saved state with its default.
\<close>

record Config =
  subJoyTopic :: string
  pubJoyTopic :: string
  publishMode :: bool
  publishFrameId :: string
  dataSource :: string
  displayMode :: string
  debugGamepad :: bool
  layoutName :: string
  mapping_name :: string
  gamepadId :: int

record PartialConfig =
  saved_subJoyTopic :: "string option"
  saved_pubJoyTopic :: "string option"
  saved_publishMode :: "bool option"
  saved_publishFrameId :: "string option"
  saved_dataSource :: "string option"
  saved_displayMode :: "string option"
  saved_debugGamepad :: "bool option"
  saved_layoutName :: "string option"
  saved_mapping_name :: "string option"
  saved_gamepadId :: "int option"

definition orDefault :: "'a option \<Rightarrow> 'a \<Rightarrow> 'a" where
  "orDefault x d = (case x of None \<Rightarrow> d | Some v \<Rightarrow> v)"

definition config_init :: "PartialConfig \<Rightarrow> Config" where
  "config_init partialConfig =
     \<lparr>subJoyTopic = orDefault (saved_subJoyTopic partialConfig) ''/joy'',
      pubJoyTopic = orDefault (saved_pubJoyTopic partialConfig) ''/joy'',
      publishMode = orDefault (saved_publishMode partialConfig) False,
      publishFrameId = orDefault (saved_publishFrameId partialConfig) [],
      dataSource = orDefault (saved_dataSource partialConfig) ''sub-joy-topic'',
      displayMode = orDefault (saved_displayMode partialConfig) ''auto'',
      debugGamepad = orDefault (saved_debugGamepad partialConfig) False,
      layoutName = orDefault (saved_layoutName partialConfig) ''steamdeck'',
      mapping_name = orDefault (saved_mapping_name partialConfig) ''TODO'',
      gamepadId = orDefault (saved_gamepadId partialConfig) 0\<rparr>"

text \<open>
  The host. \<^verbatim>\<open>advertise\<close>, \<^verbatim>\<open>unadvertise\<close> and \<^verbatim>\<open>publish\<close> are optional members of
  the extension context and the source calls them with \<^verbatim>\<open>?.\<close>, which does nothing when
  the member is missing. The calls that reach the host are collected in order.
\<close>

record Context =
  has_advertise :: bool
  has_unadvertise :: bool
  has_publish :: bool

datatype call =
    Subscribe "string list"
  | UnsubscribeAll
  | Unadvertise string
  | Advertise string string
  | Publish string "Joy option"

text \<open>The subscription effect (lines 89 to 95).\<close>

definition effect_subscribe :: "Config \<Rightarrow> call list" where
  "effect_subscribe c =
     (if dataSource c = ''sub-joy-topic'' then [Subscribe [subJoyTopic c]]
      else [UnsubscribeAll])"

text \<open>
  The replay effect (lines 97 to 110). \<open>messages\<close> is the \<^verbatim>\<open>currentFrame\<close> of the last
  render, as the list of its message payloads; \<open>None\<close> is \<^verbatim>\<open>undefined\<close>. The effect
  has no guard on the data source.
\<close>

definition effect_replay :: "Joy list option \<Rightarrow> string \<Rightarrow> Joy option" where
  "effect_replay messages frameId =
     (case messages of
        None \<Rightarrow> None
      | Some ms \<Rightarrow>
          if ms = [] then None
          else Some \<lparr>header = \<lparr>stamp = stamp (header (last ms)), frame_id = frameId\<rparr>,
                     axes = axes (last ms),
                     buttons = buttons (last ms)\<rparr>)"

text \<open>The gamepad callback \<^verbatim>\<open>didUpdate\<close> (lines 121 to 143).\<close>

record GamepadButton =
  pressed :: bool

record Gamepad =
  index :: int
  gp_axes :: "real list"
  gp_buttons :: "GamepadButton list"

definition didUpdate :: "Config \<Rightarrow> Time \<Rightarrow> Gamepad \<Rightarrow> Joy option" where
  "didUpdate c now gp =
     (if dataSource c \<noteq> ''gamepad'' then None
      else if gamepadId c \<noteq> index gp then None
      else Some \<lparr>header = \<lparr>stamp = now, frame_id = publishFrameId c\<rparr>,
                 axes = map (\<lambda>a. - a) (gp_axes gp),
                 buttons = map (\<lambda>b. if pressed b then 1 else 0) (gp_buttons gp)\<rparr>)"

text \<open>The callback of the interactive view (lines 255 to 272).\<close>

definition interactiveCb :: "Config \<Rightarrow> Time \<Rightarrow> Joy \<Rightarrow> Joy option" where
  "interactiveCb c now interactiveJoy =
     (if dataSource c \<noteq> ''interactive'' then None
      else Some \<lparr>header = \<lparr>stamp = now, frame_id = publishFrameId c\<rparr>,
                 axes = axes interactiveJoy,
                 buttons = buttons interactiveJoy\<rparr>)"

text \<open>
  The advertise effect (lines 225 to 235): the new value of \<^verbatim>\<open>pubTopic\<close> and the calls
  made by the function passed to \<^verbatim>\<open>setPubTopic\<close>. An undefined or empty old topic is
  falsy.
\<close>

definition effect_advertise ::
  "Context \<Rightarrow> Config \<Rightarrow> string option \<Rightarrow> string option \<times> call list" where
  "effect_advertise context c oldTopic =
     (if publishMode c then
        (Some (pubJoyTopic c),
         (case oldTopic of
            None \<Rightarrow> []
          | Some t \<Rightarrow> if t \<noteq> [] \<and> has_unadvertise context then [Unadvertise t] else [])
         @ (if has_advertise context then [Advertise (pubJoyTopic c) ''sensor_msgs/Joy'']
            else []))
      else (oldTopic, []))"

text \<open>The publish effect (lines 237 to 245).\<close>

definition effect_publish ::
  "Context \<Rightarrow> Config \<Rightarrow> Joy option \<Rightarrow> string option \<Rightarrow> call list" where
  "effect_publish context c j topic =
     (if \<not> publishMode c then []
      else (case topic of
              None \<Rightarrow> []
            | Some t \<Rightarrow>
                if t \<noteq> [] \<and> t = pubJoyTopic c \<and> has_publish context then [Publish t j]
                else []))"

subsection \<open>The panel: state, events, renders\<close>

text \<open>
  The state of the component that the modelled code reads or writes (the \<^verbatim>\<open>useState\<close>
  cells of lines 27 to 62 without \<^verbatim>\<open>topics\<close> and \<^verbatim>\<open>renderDone\<close>), and the calls made to
  the host so far. The settings editor, \<^verbatim>\<open>saveState\<close> and the drawing of the views are
  left to the host: they write none of these cells.
\<close>

record Panel =
  config :: Config
  messages :: "Joy list option"
  joy :: "Joy option"
  pubTopic :: "string option"
  kbEnabled :: bool
  trackedKeys :: "KeyMap option"
  calls :: "call list"

text \<open>
  React compares the dependencies of an effect with those of the previous render by
  identity. For strings, numbers and booleans that is equality of the values; for the three
  cells that hold objects, a flag says whether the cell got a new object since that render.
\<close>

record Fresh =
  fresh_messages :: bool
  fresh_trackedKeys :: bool
  fresh_joy :: bool

definition no_fresh :: Fresh where
  "no_fresh = \<lparr>fresh_messages = False, fresh_trackedKeys = False, fresh_joy = False\<rparr>"

text \<open>
  What reaches the component: the two document listeners, the switch, a change of the
  settings (the configuration that \<^verbatim>\<open>settingsActionReducer\<close> returned), a render of the
  host with its \<^verbatim>\<open>currentFrame\<close> (a new array each time, or \<^verbatim>\<open>undefined\<close>), a gamepad
  poll and the callback of the interactive view. The reducer and the hook that polls the
  gamepad are not among the sources; what they hand to the panel is the argument of the
  event.
\<close>

datatype event =
    KeyDown string
  | KeyUp string
  | KbSwitch bool
  | Settings Config
  | OnRender "Joy list option"
  | DidUpdate Gamepad
  | InteractiveCb Joy

fun dispatch :: "Time \<Rightarrow> event \<Rightarrow> Panel \<Rightarrow> Panel \<times> Fresh" where
  "dispatch now (KeyDown key) s =
     (s\<lparr>trackedKeys := handleKeyDown key (trackedKeys s)\<rparr>,
      no_fresh\<lparr>fresh_trackedKeys := keys_fresh key (trackedKeys s)\<rparr>)"
| "dispatch now (KeyUp key) s =
     (s\<lparr>trackedKeys := handleKeyUp key (trackedKeys s)\<rparr>,
      no_fresh\<lparr>fresh_trackedKeys := keys_fresh key (trackedKeys s)\<rparr>)"
| "dispatch now (KbSwitch checked) s = (s\<lparr>kbEnabled := checked\<rparr>, no_fresh)"
| "dispatch now (Settings c) s = (s\<lparr>config := c\<rparr>, no_fresh)"
| "dispatch now (OnRender currentFrame) s =
     (s\<lparr>messages := currentFrame\<rparr>,
      no_fresh\<lparr>fresh_messages := (currentFrame \<noteq> None \<or> messages s \<noteq> None)\<rparr>)"
| "dispatch now (DidUpdate gp) s =
     (case didUpdate (config s) now gp of
        None \<Rightarrow> (s, no_fresh)
      | Some tmpJoy \<Rightarrow> (s\<lparr>joy := Some tmpJoy\<rparr>, no_fresh\<lparr>fresh_joy := True\<rparr>))"
| "dispatch now (InteractiveCb interactiveJoy) s =
     (case interactiveCb (config s) now interactiveJoy of
        None \<Rightarrow> (s, no_fresh)
      | Some tmpJoy \<Rightarrow> (s\<lparr>joy := Some tmpJoy\<rparr>, no_fresh\<lparr>fresh_joy := True\<rparr>))"

text \<open>
  One render and its effects, in the order of the source. \<open>prev\<close> is the state of the
  previous render, \<open>cur\<close> the state rendered now, \<open>first\<close> says that this is the first
  render (every effect runs). Each effect reads \<open>cur\<close>; the function passed to
  \<^verbatim>\<open>setPubTopic\<close> runs where the effect calls it; of two \<^verbatim>\<open>setJoy\<close> calls the later one
  (the keyboard's) stays. The result is the state of the next render.
\<close>

definition run_effects ::
  "Context \<Rightarrow> Time \<Rightarrow> bool \<Rightarrow> Panel \<Rightarrow> Fresh \<Rightarrow> Panel \<Rightarrow> Panel \<times> Fresh" where
  "run_effects context now first prev fr cur =
     (let c = config cur; p = config prev;
          sub = (if first \<or> subJoyTopic c \<noteq> subJoyTopic p \<or> dataSource c \<noteq> dataSource p
                 then effect_subscribe c else []);
          replayed = (if first \<or> fresh_messages fr \<or> publishFrameId c \<noteq> publishFrameId p
                      then effect_replay (messages cur) (publishFrameId c) else None);
          typed = (if first \<or> dataSource c \<noteq> dataSource p \<or> fresh_trackedKeys fr
                      \<or> publishFrameId c \<noteq> publishFrameId p \<or> kbEnabled cur \<noteq> kbEnabled prev
                   then effect_keyboard (dataSource c) (publishFrameId c) (kbEnabled cur)
                          (trackedKeys cur) now
                   else None);
          adv = (if first \<or> pubJoyTopic c \<noteq> pubJoyTopic p \<or> publishMode c \<noteq> publishMode p
                 then effect_advertise context c (pubTopic cur) else (pubTopic cur, []));
          pub = (if first \<or> pubJoyTopic c \<noteq> pubJoyTopic p \<or> publishMode c \<noteq> publishMode p
                    \<or> fresh_joy fr \<or> pubTopic cur \<noteq> pubTopic prev
                 then effect_publish context c (joy cur) (pubTopic cur) else [])
      in (cur\<lparr>joy := (case typed of
                         Some tmpJoy \<Rightarrow> Some tmpJoy
                       | None \<Rightarrow> (case replayed of Some tmpMsg \<Rightarrow> Some tmpMsg | None \<Rightarrow> joy cur)),
               pubTopic := fst adv,
               calls := calls cur @ sub @ snd adv @ pub\<rparr>,
          no_fresh\<lparr>fresh_joy := (typed \<noteq> None \<or> replayed \<noteq> None)\<rparr>))"

text \<open>
  The effects of a render set \<^verbatim>\<open>joy\<close> and \<^verbatim>\<open>pubTopic\<close>, so one more render follows, in
  which only the publish effect can have a changed dependency; it sets nothing
  (\<open>run_effects_quiet\<close> below), so the renders end there.
\<close>

definition settle :: "Context \<Rightarrow> Time \<Rightarrow> bool \<Rightarrow> Panel \<Rightarrow> Fresh \<Rightarrow> Panel \<Rightarrow> Panel" where
  "settle context now first prev fr cur =
     (case run_effects context now first prev fr cur of
        (s2, fr2) \<Rightarrow> fst (run_effects context now False cur fr2 s2))"

definition step :: "Context \<Rightarrow> Time \<Rightarrow> event \<Rightarrow> Panel \<Rightarrow> Panel" where
  "step context now ev s =
     (case dispatch now ev s of (s1, fr1) \<Rightarrow> settle context now False s fr1 s1)"

definition mount :: "Context \<Rightarrow> Time \<Rightarrow> PartialConfig \<Rightarrow> (string \<times> KbDef) list \<Rightarrow> Panel" where
  "mount context now initialState entries =
     (let s0 = \<lparr>config = config_init initialState, messages = None, joy = None,
                pubTopic = None, kbEnabled = True,
                trackedKeys = Some (trackedKeys_init entries), calls = []\<rparr>
      in settle context now True s0 no_fresh s0)"

text \<open>
  A run: the events in their order of arrival, each with the clock's reading. An event is
  handled to its end, renders and effects included, before the next one is taken from the
  queue.
\<close>

fun run :: "Context \<Rightarrow> Panel \<Rightarrow> (Time \<times> event) list \<Rightarrow> Panel" where
  "run context s [] = s"
| "run context s ((now, ev) # evs) = run context (step context now ev s) evs"

subsection \<open>Notions used in the properties\<close>

text \<open>
  The indices that the fold writes: an entry counts as a button when its button index is
  not negative, and as an axis when its button index is negative and its axis index is not
  (the order of the two tests in \<open>forEach_body\<close>).
\<close>

definition button_indices :: "KeyMap \<Rightarrow> int list" where
  "button_indices m = map (\<lambda>(key, v). button v) (filter (\<lambda>(key, v). button v \<ge> 0) m)"

definition axis_indices :: "KeyMap \<Rightarrow> int list" where
  "axis_indices m =
     map (\<lambda>(key, v). axis v) (filter (\<lambda>(key, v). button v < 0 \<and> axis v \<ge> 0) m)"

text \<open>The length of an array that is dense up to the highest of the given indices.\<close>

definition dense_length :: "int list \<Rightarrow> nat" where
  "dense_length is = (if is = [] then 0 else nat (Max (set is)) + 1)"

text \<open>The signed sum of the values of the entries bound to axis \<open>i\<close>.\<close>

definition axis_sum :: "KeyMap \<Rightarrow> nat \<Rightarrow> real" where
  "axis_sum m i =
     (\<Sum>(key, v) \<leftarrow> m. if button v < 0 \<and> axis v = int i
                       then (if direction v > 0 then 1 else -1) * real_of_int (value v) else 0)"

text \<open>The entries that write button \<open>b\<close>, in the order of the table.\<close>

definition writers :: "KeyMap \<Rightarrow> int \<Rightarrow> KeyMap" where
  "writers m b = filter (\<lambda>(key, v). button v = b) m"

text \<open>Reading an array with \<open>0\<close> beyond its end, and the two halves of \<open>forEach_body\<close>.\<close>

definition nth0 :: "'a::zero list \<Rightarrow> nat \<Rightarrow> 'a" where
  "nth0 xs i = (if i < length xs then xs ! i else 0)"

definition axes_step :: "KbMap \<Rightarrow> real list \<Rightarrow> real list" where
  "axes_step v a = fst (forEach_body v (a, []))"

definition buttons_step :: "KbMap \<Rightarrow> int list \<Rightarrow> int list" where
  "buttons_step v b = snd (forEach_body v ([], b))"

text \<open>Every value of the table is \<open>0\<close> or \<open>1\<close>.\<close>

definition binary_values :: "KeyMap \<Rightarrow> bool" where
  "binary_values m = list_all (\<lambda>(key, v). value v = 0 \<or> value v = 1) m"

definition tracked_binary :: "Panel \<Rightarrow> bool" where
  "tracked_binary s = (case trackedKeys s of None \<Rightarrow> False | Some m \<Rightarrow> binary_values m)"


text \<open>With publishing on, the advertised topic is the configured one.\<close>

definition pub_settled :: "Panel \<Rightarrow> bool" where
  "pub_settled s = (publishMode (config s) \<longrightarrow> pubTopic s = Some (pubJoyTopic (config s)))"

text \<open>Inputs for the examples: a host with every optional member, a clock, a saved state.\<close>

definition host :: Context where
  "host = \<lparr>has_advertise = True, has_unadvertise = True, has_publish = True\<rparr>"

definition clock :: "int \<Rightarrow> Time" where
  "clock n = \<lparr>sec = n, nsec = 0\<rparr>"

definition saved :: "string \<Rightarrow> bool \<Rightarrow> string \<Rightarrow> PartialConfig" where
  "saved source publishing topic =
     \<lparr>saved_subJoyTopic = None, saved_pubJoyTopic = Some topic,
      saved_publishMode = Some publishing, saved_publishFrameId = None,
      saved_dataSource = Some source, saved_displayMode = None, saved_debugGamepad = None,
      saved_layoutName = None, saved_mapping_name = None, saved_gamepadId = None\<rparr>"

definition button_key :: "int \<Rightarrow> KbDef" where
  "button_key b = \<lparr>def_button = b, def_axis = -1, def_direction = ''+''\<rparr>"

definition held_button :: "int \<Rightarrow> int \<Rightarrow> KbMap" where
  "held_button b x = \<lparr>button = b, axis = -1, direction = 1, value = x\<rparr>"

definition held_axis :: "int \<Rightarrow> int \<Rightarrow> int \<Rightarrow> KbMap" where
  "held_axis a d x = \<lparr>button = -1, axis = a, direction = d, value = x\<rparr>"

text \<open>
  Panels for the examples: a key held and the keyboard then switched off; a panel started
  on the keyboard and then put on the gamepad; a panel that publishes on \<^verbatim>\<open>/a\<close>; a panel that replays a topic with the output
  frame id \<^verbatim>\<open>Y\<close>, and an inbound message; a panel on the keyboard, no key pressed yet.
\<close>

definition held_then_disabled :: Panel where
  "held_then_disabled =
     run host (mount host (clock 0) (saved ''keyboard'' False ''/joy'') [(''a'', button_key 0)])
       [(clock 1, KeyDown ''a''), (clock 2, KbSwitch False)]"


definition publishing_panel :: Panel where
  "publishing_panel = run host (mount host (clock 0) (saved ''keyboard'' True ''/a'') []) []"

definition replay_panel :: Panel where
  "replay_panel =
     run host (mount host (clock 0) (saved ''sub-joy-topic'' False ''/joy'') [])
       [(clock 1, Settings ((config_init (saved ''sub-joy-topic'' False ''/joy''))
                              \<lparr>publishFrameId := ''Y''\<rparr>))]"

definition inbound :: "string \<Rightarrow> real list \<Rightarrow> int list \<Rightarrow> Joy" where
  "inbound fid as bs = \<lparr>header = \<lparr>stamp = clock 7, frame_id = fid\<rparr>, axes = as, buttons = bs\<rparr>"

definition keyboard_panel :: Panel where
  "keyboard_panel = mount host (clock 0) (saved ''keyboard'' False ''/joy'') [(''a'', button_key 0)]"

section \<open>The keyboard frame\<close>

subsection \<open>The fold, array by array\<close>

declare push_zeros.simps [simp del]

lemma push_zeros_eq: "push_zeros xs i = xs @ replicate (nat (i + 1) - length xs) 0"
proof (induction xs i rule: push_zeros.induct)
  case (1 xs i)
  show ?case
  proof (cases "int (length xs) \<le> i")
    case True
    then have "nat (i + 1) - length xs = Suc (nat (i + 1) - length (xs @ [0::'a]))"
      by simp
    with True 1 show ?thesis
      by (subst push_zeros.simps) (simp add: replicate_app_Cons_same)
  next
    case False
    then show ?thesis by (subst push_zeros.simps) simp
  qed
qed

lemma length_push_zeros: "length (push_zeros xs x) = max (length xs) (nat (x + 1))"
  by (simp add: push_zeros_eq)

lemma forEach_body_split: "forEach_body v (a, b) = (axes_step v a, buttons_step v b)"
  by (simp add: forEach_body_def axes_step_def buttons_step_def Let_def)

lemma foldl_forEach_split:
  "foldl (\<lambda>ab (key, v). forEach_body v ab) (a, b) m =
     (foldl (\<lambda>a (key, v). axes_step v a) a m, foldl (\<lambda>b (key, v). buttons_step v b) b m)"
  by (induction m arbitrary: a b) (auto simp: forEach_body_split)

lemma kb_arrays_Some:
  "kb_arrays (Some m) =
     (foldl (\<lambda>a (key, v). axes_step v a) [] m, foldl (\<lambda>b (key, v). buttons_step v b) [] m)"
  by (simp add: kb_arrays_def foldl_forEach_split)

lemma nth0_buttons_step:
  "nth0 (buttons_step v b) i = (if button v = int i then value v else nth0 b i)"
  by (auto simp: buttons_step_def forEach_body_def Let_def nth0_def length_push_zeros
        push_zeros_eq nth_append nth_list_update)

lemma nth0_axes_step:
  "nth0 (axes_step v a) i =
     nth0 a i + (if button v < 0 \<and> axis v = int i
                 then (if direction v > 0 then 1 else -1) * real_of_int (value v) else 0)"
  by (auto simp: axes_step_def forEach_body_def Let_def nth0_def length_push_zeros
        push_zeros_eq nth_append nth_list_update)

lemma length_buttons_step:
  "length (buttons_step v b) =
     (if button v \<ge> 0 then max (length b) (nat (button v) + 1) else length b)"
  by (auto simp: buttons_step_def forEach_body_def length_push_zeros Let_def)

lemma length_axes_step:
  "length (axes_step v a) =
     (if button v < 0 \<and> axis v \<ge> 0 then max (length a) (nat (axis v) + 1) else length a)"
  by (auto simp: axes_step_def forEach_body_def length_push_zeros Let_def)

lemma dense_length_snoc:
  "0 \<le> x \<Longrightarrow> \<forall>y \<in> set is. 0 \<le> y \<Longrightarrow>
     dense_length (is @ [x]) = max (dense_length is) (nat x + 1)"
  by (cases "is = []") (auto simp: dense_length_def max_def)

lemma length_fold_buttons:
  "length (foldl (\<lambda>b (key, v). buttons_step v b) b m) = max (length b) (dense_length (button_indices m))"
proof (induction m rule: rev_induct)
  case Nil
  show ?case by (simp add: button_indices_def dense_length_def)
next
  case (snoc x m)
  obtain key v where x: "x = (key, v)" by (cases x)
  have nonneg: "\<forall>y \<in> set (button_indices m). 0 \<le> y"
    by (auto simp: button_indices_def)
  show ?case
  proof (cases "button v \<ge> 0")
    case False
    with snoc x show ?thesis by (simp add: length_buttons_step button_indices_def)
  next
    case True
    then have "button_indices (m @ [x]) = button_indices m @ [button v]"
      using x by (simp add: button_indices_def)
    with True nonneg have "dense_length (button_indices (m @ [x])) =
        max (dense_length (button_indices m)) (nat (button v) + 1)"
      by (simp add: dense_length_snoc)
    with snoc x True show ?thesis by (simp add: length_buttons_step)
  qed
qed

lemma length_fold_axes:
  "length (foldl (\<lambda>a (key, v). axes_step v a) a m) = max (length a) (dense_length (axis_indices m))"
proof (induction m rule: rev_induct)
  case Nil
  show ?case by (simp add: axis_indices_def dense_length_def)
next
  case (snoc x m)
  obtain key v where x: "x = (key, v)" by (cases x)
  have nonneg: "\<forall>y \<in> set (axis_indices m). 0 \<le> y"
    by (auto simp: axis_indices_def)
  show ?case
  proof (cases "button v < 0 \<and> axis v \<ge> 0")
    case False
    with snoc x show ?thesis by (auto simp: length_axes_step axis_indices_def)
  next
    case True
    then have "axis_indices (m @ [x]) = axis_indices m @ [axis v]"
      using x by (simp add: axis_indices_def)
    with True nonneg have "dense_length (axis_indices (m @ [x])) =
        max (dense_length (axis_indices m)) (nat (axis v) + 1)"
      by (simp add: dense_length_snoc)
    with snoc x True show ?thesis by (simp add: length_axes_step)
  qed
qed

lemma nth0_fold_buttons:
  "nth0 (foldl (\<lambda>b (key, v). buttons_step v b) b m) i =
     (if writers m (int i) = [] then nth0 b i else value (snd (last (writers m (int i)))))"
proof (induction m rule: rev_induct)
  case Nil
  show ?case by (simp add: writers_def)
next
  case (snoc x m)
  obtain key v where x: "x = (key, v)" by (cases x)
  with snoc show ?case by (simp add: nth0_buttons_step writers_def)
qed

lemma nth0_fold_axes:
  "nth0 (foldl (\<lambda>a (key, v). axes_step v a) a m) i = nth0 a i + axis_sum m i"
proof (induction m rule: rev_induct)
  case Nil
  show ?case by (simp add: axis_sum_def)
next
  case (snoc x m)
  obtain key v where x: "x = (key, v)" by (cases x)
  with snoc show ?case by (simp add: nth0_axes_step axis_sum_def)
qed

lemma buttons_nth:
  "i < length (snd (kb_arrays (Some m))) \<Longrightarrow>
     snd (kb_arrays (Some m)) ! i =
       (if writers m (int i) = [] then 0 else value (snd (last (writers m (int i)))))"
  using nth0_fold_buttons [of "[]" m i] by (simp add: kb_arrays_Some nth0_def)

lemma axes_nth:
  "i < length (fst (kb_arrays (Some m))) \<Longrightarrow> fst (kb_arrays (Some m)) ! i = axis_sum m i"
  using nth0_fold_axes [of "[]" m i] by (simp add: kb_arrays_Some nth0_def)

lemma length_buttons: "length (snd (kb_arrays (Some m))) = dense_length (button_indices m)"
  by (simp add: kb_arrays_Some length_fold_buttons)

lemma length_axes: "length (fst (kb_arrays (Some m))) = dense_length (axis_indices m)"
  by (simp add: kb_arrays_Some length_fold_axes)

text \<open>What a keyboard frame holds: the two arrays of the fold.\<close>

lemma frame_arrays:
  "effect_keyboard source frameId enabled tk now = Some j \<Longrightarrow>
     axes j = fst (kb_arrays tk) \<and> buttons j = snd (kb_arrays tk)"
  by (auto simp: effect_keyboard_def split: if_splits)

lemma sum_list_all_zero: "(\<forall>x \<in> set xs. f x = (0::real)) \<Longrightarrow> sum_list (map f xs) = 0"
  by (induction xs) auto

lemma last_writer_in: "writers m b \<noteq> [] \<Longrightarrow> last (writers m b) \<in> set m \<and> button (snd (last (writers m b))) = b"
proof -
  assume "writers m b \<noteq> []"
  then have "last (writers m b) \<in> set (writers m b)" by simp
  then show ?thesis by (auto simp: writers_def)
qed

lemma dense_length_gt: "x \<in> set is \<Longrightarrow> 0 \<le> x \<Longrightarrow> nat x < dense_length is"
proof -
  assume x: "x \<in> set is" and "0 \<le> x"
  then have "x \<le> Max (set is)" by simp
  then have "nat x \<le> nat (Max (set is))" by simp
  with x show ?thesis by (auto simp: dense_length_def)
qed

lemma axis_sum_two:
  assumes d: "distinct (map fst m)"
    and e1: "(k1, v1) \<in> set m" and e2: "(k2, v2) \<in> set m" and ne: "k1 \<noteq> k2"
    and rest: "\<forall>(key, v) \<in> set m. key \<noteq> k1 \<and> key \<noteq> k2 \<longrightarrow> f (key, v) = (0::real)"
  shows "sum_list (map f m) = f (k1, v1) + f (k2, v2)"
proof -
  from d have dm: "distinct m" by (rule distinct_map [THEN iffD1, THEN conjunct1])
  have only1: "key = k1 \<Longrightarrow> (key, v) \<in> set m \<Longrightarrow> v = v1" for key v
    using d e1 by (meson eq_key_imp_eq_value)
  have only2: "key = k2 \<Longrightarrow> (key, v) \<in> set m \<Longrightarrow> v = v2" for key v
    using d e2 by (meson eq_key_imp_eq_value)
  have "sum_list (map f m) = sum f (set m)"
    using dm by (simp add: sum_list_distinct_conv_sum_set)
  also have "\<dots> = f (k1, v1) + sum f (set m - {(k1, v1)})"
    using e1 by (simp add: sum.remove)
  also have "sum f (set m - {(k1, v1)}) = f (k2, v2) + sum f (set m - {(k1, v1)} - {(k2, v2)})"
    using e2 ne by (simp add: sum.remove)
  also have "sum f (set m - {(k1, v1)} - {(k2, v2)}) = 0"
  proof (rule sum.neutral, rule ballI)
    fix x assume x: "x \<in> set m - {(k1, v1)} - {(k2, v2)}"
    obtain key v where kv: "x = (key, v)" by (cases x)
    from x kv only1 [of key v] have "key \<noteq> k1" by auto
    moreover from x kv only2 [of key v] have "key \<noteq> k2" by auto
    ultimately show "f x = 0" using rest x kv by auto
  qed
  finally show ?thesis by simp
qed

lemma axes_step_button: "0 \<le> button v \<Longrightarrow> axes_step v a = a"
  by (simp add: axes_step_def forEach_body_def)

lemma fold_axes_filter:
  "foldl (\<lambda>a (key, v). axes_step v a) a (filter (\<lambda>(key, v). button v < 0) m) =
   foldl (\<lambda>a (key, v). axes_step v a) a m"
  by (induction m arbitrary: a) (auto simp: axes_step_button)

subsection \<open>Additive axes\<close>

text \<open>
  Claim C3. Axis contributions add with their sign. Take a keyboard frame built from a
  table with unique keys in which \<open>k1\<close> is bound to axis 0 with polarity \<open>+1\<close> (a
  positive direction), \<open>k2\<close> is bound to axis 0 with polarity \<open>-1\<close>, and no other key bound
  to axis 0 is held. Then \<open>axes[0]\<close> is \<open>0\<close> when both keys are held, \<open>1\<close> when only
  \<open>k1\<close> is held and \<open>-1\<close> when only \<open>k2\<close> is held.
\<close>

theorem additive_axis:
  assumes frame: "effect_keyboard source frameId enabled (Some m) now = Some j"
    and keys: "distinct (map fst m)"
    and K1: "(k1, v1) \<in> set m" "button v1 < 0" "axis v1 = 0" "direction v1 > 0"
    and K2: "(k2, v2) \<in> set m" "button v2 < 0" "axis v2 = 0" "\<not> direction v2 > 0"
    and others: "\<forall>(key, v) \<in> set m.
                   key \<noteq> k1 \<and> key \<noteq> k2 \<and> button v < 0 \<and> axis v = 0 \<longrightarrow> value v = 0"
  shows "0 < length (axes j)
       \<and> (value v1 = 1 \<and> value v2 = 1 \<longrightarrow> axes j ! 0 = 0)
       \<and> (value v1 = 1 \<and> value v2 = 0 \<longrightarrow> axes j ! 0 = 1)
       \<and> (value v1 = 0 \<and> value v2 = 1 \<longrightarrow> axes j ! 0 = -1)"
proof -
  let ?f = "\<lambda>(key, v). if button v < 0 \<and> axis v = int 0
                         then (if direction v > 0 then 1 else -1) * real_of_int (value v) else 0"
  from K1 have "0 \<in> set (axis_indices m)" by (force simp: axis_indices_def)
  then have len: "0 < length (axes j)"
    using dense_length_gt [of 0 "axis_indices m"] frame_arrays [OF frame] by (simp add: length_axes)
  from K1 K2 keys have ne: "k1 \<noteq> k2"
    by (metis eq_key_imp_eq_value)
  have "axis_sum m 0 = ?f (k1, v1) + ?f (k2, v2)"
    unfolding axis_sum_def using keys K1(1) K2(1) ne
  proof (rule axis_sum_two)
    show "\<forall>(key, v) \<in> set m. key \<noteq> k1 \<and> key \<noteq> k2 \<longrightarrow> ?f (key, v) = 0"
      using others by auto
  qed
  with K1 K2 have "axis_sum m 0 = real_of_int (value v1) - real_of_int (value v2)" by simp
  with len frame_arrays [OF frame] have "axes j ! 0 = real_of_int (value v1) - real_of_int (value v2)"
    by (simp add: axes_nth)
  with len show ?thesis by simp
qed

text \<open>
  The theorem at three tables: \<^verbatim>\<open>d\<close> (axis 0, \<open>+\<close>) and \<^verbatim>\<open>a\<close> (axis 0, \<open>-\<close>) both
  held, only \<^verbatim>\<open>d\<close> held, only \<^verbatim>\<open>a\<close> held; a third key on the axis is not held.
\<close>

theorem additive_axis_witness:
  "effect_keyboard ''keyboard'' ''joy'' True
       (Some [(''d'', held_axis 0 1 1), (''a'', held_axis 0 0 1), (''e'', held_axis 0 1 0)])
       (clock 0)
     = Some \<lparr>header = \<lparr>stamp = clock 0, frame_id = ''joy''\<rparr>, axes = [0], buttons = []\<rparr>
   \<and> effect_keyboard ''keyboard'' ''joy'' True
       (Some [(''d'', held_axis 0 1 1), (''a'', held_axis 0 0 0), (''e'', held_axis 0 1 0)])
       (clock 0)
     = Some \<lparr>header = \<lparr>stamp = clock 0, frame_id = ''joy''\<rparr>, axes = [1], buttons = []\<rparr>
   \<and> effect_keyboard ''keyboard'' ''joy'' True
       (Some [(''d'', held_axis 0 1 0), (''a'', held_axis 0 0 1), (''e'', held_axis 0 1 0)])
       (clock 0)
     = Some \<lparr>header = \<lparr>stamp = clock 0, frame_id = ''joy''\<rparr>, axes = [-1], buttons = []\<rparr>"
proof -
  let ?t = "\<lambda>x y. [(''d'', held_axis 0 1 x), (''a'', held_axis 0 0 y), (''e'', held_axis 0 1 0)]"
  have frame: "\<exists>j. effect_keyboard ''keyboard'' ''joy'' True (Some (?t x y)) (clock 0) = Some j
        \<and> header j = \<lparr>stamp = clock 0, frame_id = ''joy''\<rparr> \<and> length (axes j) = 1 \<and> buttons j = []
        \<and> (x = 1 \<and> y = 1 \<longrightarrow> axes j ! 0 = 0)
        \<and> (x = 1 \<and> y = 0 \<longrightarrow> axes j ! 0 = 1)
        \<and> (x = 0 \<and> y = 1 \<longrightarrow> axes j ! 0 = -1)" for x y
  proof -
    obtain j where j: "effect_keyboard ''keyboard'' ''joy'' True (Some (?t x y)) (clock 0) = Some j"
      by (simp add: effect_keyboard_def)
    have shape: "header j = \<lparr>stamp = clock 0, frame_id = ''joy''\<rparr> \<and> length (axes j) = 1 \<and> buttons j = []"
      using j by (auto simp: effect_keyboard_def kb_arrays_def forEach_body_def held_axis_def
            Let_def length_push_zeros)
    have "0 < length (axes j)
       \<and> (value (held_axis 0 1 x) = 1 \<and> value (held_axis 0 0 y) = 1 \<longrightarrow> axes j ! 0 = 0)
       \<and> (value (held_axis 0 1 x) = 1 \<and> value (held_axis 0 0 y) = 0 \<longrightarrow> axes j ! 0 = 1)
       \<and> (value (held_axis 0 1 x) = 0 \<and> value (held_axis 0 0 y) = 1 \<longrightarrow> axes j ! 0 = -1)"
      by (rule additive_axis [OF j, of "''d''" _ "''a''"]) (simp_all add: held_axis_def)
    with j shape show ?thesis by (simp add: held_axis_def)
  qed
  have one: "length xs = 1 \<Longrightarrow> xs ! 0 = c \<Longrightarrow> xs = [c]" for xs :: "real list" and c
    by (cases xs) auto
  have rebuild: "header j = h \<Longrightarrow> length (axes j) = 1 \<Longrightarrow> buttons j = [] \<Longrightarrow> axes j ! 0 = c
      \<Longrightarrow> j = \<lparr>header = h, axes = [c], buttons = []\<rparr>" for j :: Joy and h c
    using one [of "axes j" c] by (cases j) simp
  from frame [of 1 1] frame [of 1 0] frame [of 0 1] show ?thesis
    by (auto dest!: rebuild)
qed

subsection \<open>Dense arrays\<close>

text \<open>
  Claim C4. In every keyboard frame the \<open>buttons\<close> and \<open>axes\<close> arrays are dense from
  index 0 up to the highest index mapped for their kind: their lengths are one more than
  the highest button index and the highest axis index of the table (\<open>0\<close> when there is
  none), and every index at which no held key writes (every entry bound to it has value
  \<open>0\<close>) holds \<open>0\<close>. In particular, a table whose only button index is 3 gives a
  \<open>buttons\<close> array of length 4 whose indices 0 to 2 hold \<open>0\<close>.
\<close>

theorem keyboard_frame_dense:
  assumes "effect_keyboard source frameId enabled (Some m) now = Some j"
  shows "length (buttons j) = dense_length (button_indices m)
       \<and> length (axes j) = dense_length (axis_indices m)
       \<and> (\<forall>i < length (buttons j).
            (\<forall>(key, v) \<in> set m. button v = int i \<longrightarrow> value v = 0) \<longrightarrow> buttons j ! i = 0)
       \<and> (\<forall>i < length (axes j).
            (\<forall>(key, v) \<in> set m. button v < 0 \<and> axis v = int i \<longrightarrow> value v = 0) \<longrightarrow> axes j ! i = 0)
       \<and> (set (button_indices m) = {3} \<longrightarrow>
            length (buttons j) = 4 \<and> buttons j ! 0 = 0 \<and> buttons j ! 1 = 0 \<and> buttons j ! 2 = 0)"
proof -
  from assms have b: "buttons j = snd (kb_arrays (Some m))" and a: "axes j = fst (kb_arrays (Some m))"
    by (auto simp: effect_keyboard_def split: if_splits)
  have lb: "length (buttons j) = dense_length (button_indices m)"
    by (simp add: b length_buttons)
  have la: "length (axes j) = dense_length (axis_indices m)"
    by (simp add: a length_axes)
  have zb: "buttons j ! i = 0"
    if "i < length (buttons j)" and "\<forall>(key, v) \<in> set m. button v = int i \<longrightarrow> value v = 0" for i
  proof (cases "writers m (int i) = []")
    case True
    with that(1) show ?thesis by (simp add: b buttons_nth)
  next
    case False
    from last_writer_in [OF False] that(2) have "value (snd (last (writers m (int i)))) = 0"
      by (cases "last (writers m (int i))") auto
    with False that(1) show ?thesis by (simp add: b buttons_nth)
  qed
  have za: "axes j ! i = 0"
    if "i < length (axes j)"
      and "\<forall>(key, v) \<in> set m. button v < 0 \<and> axis v = int i \<longrightarrow> value v = 0" for i
  proof -
    from that(2) have "axis_sum m i = 0"
      unfolding axis_sum_def by (intro sum_list_all_zero) auto
    with that(1) show ?thesis by (simp add: a axes_nth)
  qed
  have only3: "length (buttons j) = 4 \<and> buttons j ! 0 = 0 \<and> buttons j ! 1 = 0 \<and> buttons j ! 2 = 0"
    if three: "set (button_indices m) = {3}"
  proof -
    from three have ne: "button_indices m \<noteq> []" by auto
    with three have len: "length (buttons j) = 4" by (simp add: lb dense_length_def)
    have none: "\<forall>(key, v) \<in> set m. button v = int i \<longrightarrow> value v = 0" if "i < 3" for i
    proof -
      have "button v \<noteq> int i" if "(key, v) \<in> set m" for key v
      proof
        assume eq: "button v = int i"
        with that have "int i \<in> set (button_indices m)" by (force simp: button_indices_def)
        with three \<open>i < 3\<close> show False by simp
      qed
      then show ?thesis by auto
    qed
    from len zb [of 0] zb [of 1] zb [of 2] none [of 0] none [of 1] none [of 2]
    show ?thesis by simp
  qed
  from lb la zb za only3 show ?thesis by blast
qed

text \<open>
  The theorem at a table with one axis key on axis 1 (not held) and one button key on
  button 3 (held).
\<close>

theorem keyboard_frame_dense_witness:
  "effect_keyboard ''keyboard'' ''joy'' True
       (Some [(''w'', held_axis 1 1 0), (''x'', held_button 3 1)]) (clock 0)
     = Some \<lparr>header = \<lparr>stamp = clock 0, frame_id = ''joy''\<rparr>,
             axes = [0, 0], buttons = [0, 0, 0, 1]\<rparr>
   \<and> set (button_indices [(''w'', held_axis 1 1 0), (''x'', held_button 3 1)]) = {3}
   \<and> length [0, 0, 0, 1::int] = 4 \<and> [0, 0, 0, 1::int] ! 0 = 0 \<and> [0, 0, 0, 1::int] ! 1 = 0
   \<and> [0, 0, 0, 1::int] ! 2 = 0 \<and> length [0, 0::real] = 2 \<and> [0, 0::real] ! 1 = 0"
proof -
  let ?m = "[(''w'', held_axis 1 1 0), (''x'', held_button 3 1)]"
  let ?j = "\<lparr>header = \<lparr>stamp = clock 0, frame_id = ''joy''\<rparr>,
             axes = [0, 0], buttons = [0, 0, 0, 1]\<rparr>"
  have frame: "effect_keyboard ''keyboard'' ''joy'' True (Some ?m) (clock 0) = Some ?j"
    by code_simp
  have three: "set (button_indices ?m) = {3}"
    by (simp add: button_indices_def held_axis_def held_button_def)
  have idle: "\<forall>(key, v) \<in> set ?m. button v < 0 \<and> axis v = int 1 \<longrightarrow> value v = 0"
    by (simp add: held_axis_def held_button_def)
  from keyboard_frame_dense [OF frame] three idle
  have "length (buttons ?j) = 4 \<and> buttons ?j ! 0 = 0 \<and> buttons ?j ! 1 = 0 \<and> buttons ?j ! 2 = 0
      \<and> length (axes ?j) = dense_length (axis_indices ?m) \<and> axes ?j ! 1 = 0"
    by simp
  then show ?thesis using frame three
    by (simp add: axis_indices_def dense_length_def held_axis_def held_button_def)
qed

subsection \<open>Two entries on one button\<close>

text \<open>
  Claim C5 says that entries bound to the same button are combined by OR. The fold assigns
  instead. With \<^verbatim>\<open>a\<close> and \<^verbatim>\<open>b\<close> both on button 0 and only \<^verbatim>\<open>a\<close> held, the frame built
  after the key-down of \<^verbatim>\<open>a\<close> has \<open>buttons[0] = 0\<close>: the entry of \<^verbatim>\<open>b\<close>, later in
  the table, overwrites the \<open>1\<close>.
\<close>

theorem or_combine_counterexample:
  "joy (run host (mount host (clock 0) (saved ''keyboard'' False ''/joy'')
                   [(''a'', button_key 0), (''b'', button_key 0)])
            [(clock 1, KeyDown ''a'')])
     = Some \<lparr>header = \<lparr>stamp = clock 1, frame_id = []\<rparr>, axes = [], buttons = [0]\<rparr>
   \<and> trackedKeys (run host (mount host (clock 0) (saved ''keyboard'' False ''/joy'')
                   [(''a'', button_key 0), (''b'', button_key 0)])
            [(clock 1, KeyDown ''a'')])
     = Some [(''a'', held_button 0 1), (''b'', held_button 0 0)]"
  by code_simp

text \<open>
  Claim C5, amended. When entries of the table are bound to the same button index, the
  frame's value at that index is the value of the last of them in the order of the table:
  the last writer wins, whatever the values of the earlier ones.
\<close>

theorem last_writer_wins:
  assumes frame: "effect_keyboard source frameId enabled (Some m) now = Some j"
    and entry: "(key, v) \<in> set m" and target: "button v = b" "0 \<le> b"
  shows "nat b < length (buttons j) \<and> buttons j ! nat b = value (snd (last (writers m b)))"
proof -
  from entry target have "b \<in> set (button_indices m)" by (force simp: button_indices_def)
  with target have len: "nat b < length (buttons j)"
    using dense_length_gt [of b "button_indices m"] frame_arrays [OF frame] by (simp add: length_buttons)
  from entry target have "writers m b \<noteq> []" by (auto simp: writers_def filter_empty_conv)
  with len target frame_arrays [OF frame] show ?thesis
    using buttons_nth [of "nat b" m] by simp
qed

text \<open>
  The theorem at a table with \<^verbatim>\<open>a\<close> (held) and \<^verbatim>\<open>b\<close> (not held) on button 0: the
  frame's button 0 is the value of \<^verbatim>\<open>b\<close>.
\<close>

theorem last_writer_wins_witness:
  "effect_keyboard ''keyboard'' ''joy'' True
       (Some [(''a'', held_button 0 1), (''b'', held_button 0 0), (''c'', held_button 1 1)])
       (clock 0)
     = Some \<lparr>header = \<lparr>stamp = clock 0, frame_id = ''joy''\<rparr>, axes = [], buttons = [0, 1]\<rparr>
   \<and> [0, 1::int] ! nat 0
       = value (snd (last (writers
           [(''a'', held_button 0 1), (''b'', held_button 0 0), (''c'', held_button 1 1)] 0)))
   \<and> value (snd (last (writers
           [(''a'', held_button 0 1), (''b'', held_button 0 0), (''c'', held_button 1 1)] 0)))
       = value (held_button 0 0)"
proof -
  let ?m = "[(''a'', held_button 0 1), (''b'', held_button 0 0), (''c'', held_button 1 1)]"
  let ?j = "\<lparr>header = \<lparr>stamp = clock 0, frame_id = ''joy''\<rparr>, axes = [], buttons = [0, 1]\<rparr>"
  have frame: "effect_keyboard ''keyboard'' ''joy'' True (Some ?m) (clock 0) = Some ?j"
    by code_simp
  have "(''a'', held_button 0 1) \<in> set ?m" "button (held_button 0 1) = 0" "(0::int) \<le> 0"
    by (simp_all add: held_button_def)
  from last_writer_wins [OF frame this]
  have "buttons ?j ! nat 0 = value (snd (last (writers ?m 0)))" by simp
  moreover have "value (snd (last (writers ?m 0))) = value (held_button 0 0)"
    by (simp add: writers_def held_button_def)
  ultimately show ?thesis using frame by simp
qed

subsection \<open>The button branch comes first\<close>

text \<open>
  Claim C10. For an entry whose button index and axis index are both non-negative, the
  body of the fold writes the button only and leaves the axes as they are; the axes change
  only for an entry whose button index is negative; so the axes of a keyboard frame are
  those of the table without its button entries.
\<close>

theorem button_branch_first:
  "(0 \<le> button v \<and> 0 \<le> axis v \<longrightarrow>
      forEach_body v (a, b) = (a, (push_zeros b (button v))[nat (button v) := value v]))
   \<and> (fst (forEach_body v (a, b)) \<noteq> a \<longrightarrow> button v < 0)
   \<and> fst (kb_arrays (Some (filter (\<lambda>(key, v). button v < 0) m))) = fst (kb_arrays (Some m))"
proof -
  have "fst (kb_arrays (Some (filter (\<lambda>(key, v). button v < 0) m))) = fst (kb_arrays (Some m))"
    by (simp add: kb_arrays_Some fold_axes_filter)
  moreover have "0 \<le> button v \<Longrightarrow>
      forEach_body v (a, b) = (a, (push_zeros b (button v))[nat (button v) := value v])"
    by (simp add: forEach_body_def)
  ultimately show ?thesis by (cases "0 \<le> button v") auto
qed

text \<open>
  The theorem at an entry with button 2 and axis 5 (only button 2 is written), and at an
  axis entry, whose button index is negative.
\<close>

theorem button_branch_first_witness:
  "0 \<le> button \<lparr>button = 2, axis = 5, direction = 1, value = 1\<rparr>
   \<and> 0 \<le> axis \<lparr>button = 2, axis = 5, direction = 1, value = 1\<rparr>
   \<and> forEach_body \<lparr>button = 2, axis = 5, direction = 1, value = 1\<rparr> ([], []) = ([], [0, 0, 1])
   \<and> fst (forEach_body (held_axis 1 1 1) ([], [])) \<noteq> []
   \<and> button (held_axis 1 1 1) < 0"
proof -
  let ?v = "\<lparr>button = 2, axis = 5, direction = 1, value = 1\<rparr>"
  have both: "0 \<le> button ?v \<and> 0 \<le> axis ?v" by simp
  with button_branch_first [of ?v "[]" "[]" "[]"]
  have "forEach_body ?v ([], []) = ([], (push_zeros [] (button ?v))[nat (button ?v) := value ?v])"
    by blast
  then have entry: "forEach_body ?v ([], []) = ([], [0, 0, 1])"
    by (simp add: push_zeros_eq numeral_3_eq_3)
  have written: "fst (forEach_body (held_axis 1 1 1) ([], [])) \<noteq> []"
    by (simp add: forEach_body_def held_axis_def Let_def push_zeros_eq)
  with button_branch_first [of "held_axis 1 1 1" "[]" "[]" "[]"]
  have "button (held_axis 1 1 1) < 0" by blast
  with both entry written show ?thesis by simp
qed

section \<open>The panel\<close>

subsection \<open>Renders\<close>

text \<open>
  What a render and its effects leave alone, and that the renders of one event end after
  the second.
\<close>

lemma trackedKeys_run_effects [simp]: "trackedKeys (fst (run_effects context now first prev fr cur)) = trackedKeys cur"
  by (simp add: run_effects_def Let_def)

lemma kbEnabled_run_effects [simp]: "kbEnabled (fst (run_effects context now first prev fr cur)) = kbEnabled cur"
  by (simp add: run_effects_def Let_def)

lemma config_run_effects [simp]: "config (fst (run_effects context now first prev fr cur)) = config cur"
  by (simp add: run_effects_def Let_def)

lemma messages_run_effects [simp]: "messages (fst (run_effects context now first prev fr cur)) = messages cur"
  by (simp add: run_effects_def Let_def)

lemma run_effects_snd:
  "fresh_messages (snd (run_effects context now first prev fr cur)) = False
   \<and> fresh_trackedKeys (snd (run_effects context now first prev fr cur)) = False"
  by (simp add: run_effects_def Let_def no_fresh_def)

lemma pubTopic_run_effects:
  "pubTopic (fst (run_effects context now first prev fr cur)) =
     (if (first \<or> pubJoyTopic (config cur) \<noteq> pubJoyTopic (config prev)
            \<or> publishMode (config cur) \<noteq> publishMode (config prev)) \<and> publishMode (config cur)
      then Some (pubJoyTopic (config cur)) else pubTopic cur)"
  by (simp add: run_effects_def Let_def effect_advertise_def)

lemma settle_fst: "settle context now first prev fr cur =
   fst (run_effects context now False cur (snd (run_effects context now first prev fr cur)) (fst (run_effects context now first prev fr cur)))"
  by (simp add: settle_def split: prod.splits)

lemma trackedKeys_settle [simp]: "trackedKeys (settle context now first prev fr cur) = trackedKeys cur"
  by (simp add: settle_fst)

lemma config_settle [simp]: "config (settle context now first prev fr cur) = config cur"
  by (simp add: settle_fst)

lemma pubTopic_settle:
  "pubTopic (settle context now first prev fr cur) =
     (if (first \<or> pubJoyTopic (config cur) \<noteq> pubJoyTopic (config prev)
            \<or> publishMode (config cur) \<noteq> publishMode (config prev)) \<and> publishMode (config cur)
      then Some (pubJoyTopic (config cur)) else pubTopic cur)"
  by (simp add: settle_fst pubTopic_run_effects)

lemma settle_idle: "settle context now False s no_fresh s = s"
  by (simp add: settle_def run_effects_def Let_def no_fresh_def)

lemma run_effects_quiet:
  assumes one: "run_effects context now first prev fr cur = (s2, fr2)"
    and two: "run_effects context now False cur fr2 s2 = (s3, fr3)"
  shows "run_effects context now False s2 fr3 s3 = (s3, no_fresh)"
proof -
  from one have s2: "s2 = fst (run_effects context now first prev fr cur)"
    and fr2: "fr2 = snd (run_effects context now first prev fr cur)" by simp_all
  have same2: "config s2 = config cur" "kbEnabled s2 = kbEnabled cur"
    by (simp_all add: s2)
  have f2: "\<not> fresh_messages fr2" "\<not> fresh_trackedKeys fr2"
    using run_effects_snd [of _ now first prev fr cur] by (simp_all add: fr2)
  from two same2 f2 have s3: "s3 = s2\<lparr>calls := calls s2 @
        (if fresh_joy fr2 \<or> pubTopic s2 \<noteq> pubTopic cur
         then effect_publish context (config s2) (joy s2) (pubTopic s2) else [])\<rparr>"
    and fr3: "fr3 = no_fresh"
    by (auto simp: run_effects_def Let_def no_fresh_def)
  show ?thesis
    by (simp add: s3 fr3 run_effects_def Let_def no_fresh_def)
qed

lemma step_fst: "step context now ev s =
    settle context now False s (snd (dispatch now ev s)) (fst (dispatch now ev s))"
  by (simp add: step_def split: prod.splits)

lemma config_dispatch: "config (fst (dispatch now ev s)) = (case ev of Settings c \<Rightarrow> c | _ \<Rightarrow> config s)"
  by (cases ev) (simp_all split: option.splits)

lemma pubTopic_dispatch: "pubTopic (fst (dispatch now ev s)) = pubTopic s"
  by (cases ev) (simp_all split: option.splits)

lemma trackedKeys_dispatch:
  "trackedKeys (fst (dispatch now ev s)) =
     (case ev of KeyDown key \<Rightarrow> handleKeyDown key (trackedKeys s)
               | KeyUp key \<Rightarrow> handleKeyUp key (trackedKeys s)
               | _ \<Rightarrow> trackedKeys s)"
  by (cases ev) (simp_all split: option.splits)

lemma trackedKeys_step:
  "trackedKeys (step context now ev s) =
     (case ev of KeyDown key \<Rightarrow> handleKeyDown key (trackedKeys s)
               | KeyUp key \<Rightarrow> handleKeyUp key (trackedKeys s)
               | _ \<Rightarrow> trackedKeys s)"
  by (simp add: step_fst trackedKeys_dispatch)

subsection \<open>Building the key table\<close>

lemma set_update: "set (AList.update k v m) \<subseteq> insert (k, v) (set m)"
  by (induction m) auto

lemma init_values_fold:
  "\<forall>(key, v) \<in> set acc. value v = 0 \<Longrightarrow>
   \<forall>(key, v) \<in> set (foldl (\<lambda>keyMap (key, v). AList.update key (trackedKeys_entry v) keyMap)
                         acc entries). value v = 0"
proof (induction entries arbitrary: acc)
  case Nil
  then show ?case by simp
next
  case (Cons e entries)
  obtain key d where e: "e = (key, d)" by (cases e)
  have "\<forall>(k, v) \<in> set (AList.update key (trackedKeys_entry d) acc). value v = 0"
    using Cons.prems set_update [of key "trackedKeys_entry d" acc]
    by (auto simp: trackedKeys_entry_def)
  from Cons.IH [OF this] show ?case by (simp add: e)
qed

lemma init_values: "\<forall>(key, v) \<in> set (trackedKeys_init entries). value v = 0"
  unfolding trackedKeys_init_def by (rule init_values_fold) simp

lemma update_fresh: "key \<notin> fst ` set m \<Longrightarrow> AList.update key v m = m @ [(key, v)]"
  by (induction m) auto

lemma init_fold_distinct:
  "distinct (map fst acc @ map fst entries) \<Longrightarrow>
   foldl (\<lambda>keyMap (key, v). AList.update key (trackedKeys_entry v) keyMap) acc entries =
     acc @ map (\<lambda>(key, v). (key, trackedKeys_entry v)) entries"
proof (induction entries arbitrary: acc)
  case Nil
  show ?case by simp
next
  case (Cons e entries)
  obtain key d where e: "e = (key, d)" by (cases e)
  from Cons.prems e have fresh: "key \<notin> fst ` set acc" by auto
  from Cons.prems e have "distinct (map fst (acc @ [(key, trackedKeys_entry d)]) @ map fst entries)"
    by auto
  from Cons.IH [OF this] fresh show ?case by (simp add: e update_fresh)
qed

lemma init_fold_keys:
  "fst ` set (foldl (\<lambda>keyMap (key, v). AList.update key (trackedKeys_entry v) keyMap) acc entries)
     = fst ` set acc \<union> fst ` set entries"
proof (induction entries arbitrary: acc)
  case Nil
  show ?case by simp
next
  case (Cons e entries)
  obtain key d where e: "e = (key, d)" by (cases e)
  from Cons.IH [of "AList.update key (trackedKeys_entry d) acc"] show ?case
    by (simp add: e dom_update Un_assoc)
qed

lemma init_fold_unique:
  "distinct (map fst acc) \<Longrightarrow>
   distinct (map fst (foldl (\<lambda>keyMap (key, v). AList.update key (trackedKeys_entry v) keyMap)
                        acc entries))"
  by (induction entries arbitrary: acc) (auto simp: distinct_update)

text \<open>
  Claim C2 says that building the key table fails with a configuration error when a key
  maps to both an axis and a button, or when an index is negative. The initializer has no
  check and no failure: a key with button 0 and axis 0 and a key with two negative indices
  both get their entries.
\<close>

theorem init_accepts_counterexample:
  "trackedKeys_init
       [(''a'', \<lparr>def_button = 0, def_axis = 0, def_direction = ''+''\<rparr>),
        (''b'', \<lparr>def_button = -1, def_axis = -2, def_direction = ''-''\<rparr>)]
     = [(''a'', \<lparr>button = 0, axis = 0, direction = 1, value = 0\<rparr>),
        (''b'', \<lparr>button = -1, axis = -2, direction = 0, value = 0\<rparr>)]"
  by code_simp

text \<open>
  Claim C2, amended. Building the key table never fails and checks nothing: the table
  holds every key of the mapping exactly once, every value is \<open>0\<close>, and the button and
  axis indices of an entry are those of the mapping as they are, also when both are
  non-negative or when one is negative; for a mapping with unique keys the table is the
  mapping, entry by entry, in its order.
\<close>

theorem init_never_fails:
  "distinct (map fst (trackedKeys_init entries))
   \<and> fst ` set (trackedKeys_init entries) = fst ` set entries
   \<and> (\<forall>(key, v) \<in> set (trackedKeys_init entries). value v = 0)
   \<and> (distinct (map fst entries) \<longrightarrow>
        trackedKeys_init entries = map (\<lambda>(key, d). (key, trackedKeys_entry d)) entries)
   \<and> button (trackedKeys_entry d) = def_button d \<and> axis (trackedKeys_entry d) = def_axis d"
proof -
  have "distinct (map fst (trackedKeys_init entries))"
    unfolding trackedKeys_init_def by (rule init_fold_unique) simp
  moreover have "fst ` set (trackedKeys_init entries) = fst ` set entries"
    by (simp add: trackedKeys_init_def init_fold_keys)
  moreover have "trackedKeys_init entries = map (\<lambda>(key, d). (key, trackedKeys_entry d)) entries"
    if "distinct (map fst entries)"
    using that init_fold_distinct [of "[]" entries] by (simp add: trackedKeys_init_def)
  ultimately show ?thesis
    using init_values [of entries] by (simp add: trackedKeys_entry_def)
qed

text \<open>The theorem at a mapping with a key bound to both kinds and a key bound to none.\<close>

theorem init_never_fails_witness:
  "distinct (map fst [(''a'', \<lparr>def_button = 0, def_axis = 3, def_direction = ''+''\<rparr>),
                      (''b'', \<lparr>def_button = -1, def_axis = -1, def_direction = ''-''\<rparr>)])
   \<and> trackedKeys_init [(''a'', \<lparr>def_button = 0, def_axis = 3, def_direction = ''+''\<rparr>),
                        (''b'', \<lparr>def_button = -1, def_axis = -1, def_direction = ''-''\<rparr>)]
       = [(''a'', \<lparr>button = 0, axis = 3, direction = 1, value = 0\<rparr>),
          (''b'', \<lparr>button = -1, axis = -1, direction = 0, value = 0\<rparr>)]"
proof -
  let ?entries = "[(''a'', \<lparr>def_button = 0, def_axis = 3, def_direction = ''+''\<rparr>),
                   (''b'', \<lparr>def_button = -1, def_axis = -1, def_direction = ''-''\<rparr>)]"
  have unique: "distinct (map fst ?entries)" by simp
  with init_never_fails [of ?entries]
  have "trackedKeys_init ?entries = map (\<lambda>(key, d). (key, trackedKeys_entry d)) ?entries"
    by blast
  with unique show ?thesis by (simp add: trackedKeys_entry_def)
qed

subsection \<open>Key events\<close>

lemma set_map_entry:
  "(k, v) \<in> set (AList.map_entry key f m) \<Longrightarrow> (k, v) \<in> set m \<or> (\<exists>v'. (k, v') \<in> set m \<and> v = f v')"
  by (induction m) (auto split: if_splits)

lemma binary_values_iff: "binary_values m = (\<forall>(key, v) \<in> set m. value v = 0 \<or> value v = 1)"
  by (simp add: binary_values_def list_all_iff)

lemma binary_handleKeyDown:
  "binary_values m \<Longrightarrow> \<exists>m'. handleKeyDown key (Some m) = Some m' \<and> binary_values m'"
  by (auto simp: handleKeyDown_def binary_values_iff dest!: set_map_entry)

lemma binary_handleKeyUp:
  "binary_values m \<Longrightarrow> \<exists>m'. handleKeyUp key (Some m) = Some m' \<and> binary_values m'"
  by (auto simp: handleKeyUp_def binary_values_iff dest!: set_map_entry)

lemma tracked_binary_step: "tracked_binary s \<Longrightarrow> tracked_binary (step context now ev s)"
proof -
  assume inv: "tracked_binary s"
  then obtain m where m: "trackedKeys s = Some m" "binary_values m"
    by (auto simp: tracked_binary_def split: option.splits)
  show ?thesis
  proof (cases ev)
    case (KeyDown key)
    with m binary_handleKeyDown [of m key] show ?thesis
      by (auto simp: tracked_binary_def trackedKeys_step)
  next
    case (KeyUp key)
    with m binary_handleKeyUp [of m key] show ?thesis
      by (auto simp: tracked_binary_def trackedKeys_step)
  qed (use m in \<open>simp_all add: tracked_binary_def trackedKeys_step\<close>)
qed

lemma tracked_binary_mount: "tracked_binary (mount context now initialState entries)"
  using init_values [of entries]
  by (auto simp: tracked_binary_def mount_def Let_def binary_values_iff)

lemma tracked_binary_run: "tracked_binary s \<Longrightarrow> tracked_binary (run context s evs)"
  by (induction evs arbitrary: s) (auto simp: tracked_binary_step)

lemma step_untracked:
  assumes "trackedKeys s = Some m" "\<not> has m key"
  shows "step context now (KeyDown key) s = s" "step context now (KeyUp key) s = s"
proof -
  have same: "s\<lparr>trackedKeys := Some m\<rparr> = s"
    using assms(1) [symmetric] by simp
  have idle: "settle context now False s
      \<lparr>fresh_messages = False, fresh_trackedKeys = False, fresh_joy = False\<rparr> s = s"
    using settle_idle [of _ now s] by (simp add: no_fresh_def)
  show "step context now (KeyDown key) s = s"
    by (simp add: step_def handleKeyDown_def keys_fresh_def no_fresh_def assms same idle)
  show "step context now (KeyUp key) s = s"
    by (simp add: step_def handleKeyUp_def keys_fresh_def no_fresh_def assms same idle)
qed

lemma map_of_key_up:
  "has m key \<Longrightarrow> \<exists>m'. handleKeyUp key (Some m) = Some m' \<and> map_option value (map_of m' key) = Some 0"
  by (auto simp: handleKeyUp_def has_def map_of_map_entry)

text \<open>
  Claim C9. After any sequence of events from the start of the panel, key-downs and
  key-ups among them, every value of the key table is \<open>0\<close> or \<open>1\<close>. A key-up of a
  tracked key sets its value to \<open>0\<close> in any state, whether a key-down came before or not.
  An event of a key that is not tracked leaves the whole state as it is.
\<close>

theorem key_values_binary:
  "(\<exists>m. trackedKeys (run ctx (mount ctx t0 initialState entries) evs) = Some m
        \<and> binary_values m)
   \<and> (trackedKeys s = Some m \<and> has m key \<longrightarrow>
        (\<exists>m'. trackedKeys (step ctx now (KeyUp key) s) = Some m'
              \<and> map_option value (map_of m' key) = Some 0))
   \<and> (trackedKeys s = Some m \<and> \<not> has m key \<longrightarrow>
        step ctx now (KeyDown key) s = s \<and> step ctx now (KeyUp key) s = s)"
proof -
  have "tracked_binary (run ctx (mount ctx t0 initialState entries) evs)"
    by (simp add: tracked_binary_run tracked_binary_mount)
  then have binary: "\<exists>m. trackedKeys (run ctx (mount ctx t0 initialState entries) evs) = Some m
        \<and> binary_values m"
    by (auto simp: tracked_binary_def split: option.splits)
  have up: "\<exists>m'. trackedKeys (step ctx now (KeyUp key) s) = Some m'
              \<and> map_option value (map_of m' key) = Some 0"
    if "trackedKeys s = Some m" "has m key"
    using that map_of_key_up [of m key] by (simp add: trackedKeys_step)
  from binary up step_untracked [of s m key _ now] show ?thesis by blast
qed

text \<open>
  The theorem at the panel right after its start: a key-up of \<^verbatim>\<open>a\<close> with no key-down
  before, and events of the untracked key \<^verbatim>\<open>z\<close>.
\<close>

theorem key_values_binary_witness:
  "trackedKeys keyboard_panel = Some [(''a'', held_button 0 0)]
   \<and> has [(''a'', held_button 0 0)] ''a''
   \<and> map_option value
         (map_of (the (trackedKeys (step host (clock 1) (KeyUp ''a'') keyboard_panel))) ''a'')
       = Some 0
   \<and> \<not> has [(''a'', held_button 0 0)] ''z''
   \<and> step host (clock 1) (KeyDown ''z'') keyboard_panel = keyboard_panel
   \<and> step host (clock 1) (KeyUp ''z'') keyboard_panel = keyboard_panel"
proof -
  have keys: "trackedKeys keyboard_panel = Some [(''a'', held_button 0 0)]"
    by code_simp
  have tracked: "has [(''a'', held_button 0 0)] ''a''"
    and untracked: "\<not> has [(''a'', held_button 0 0)] ''z''"
    by (simp_all add: has_def)
  from key_values_binary [where s = keyboard_panel and m = "[(''a'', held_button 0 0)]"
      and key = "''a''" and ctx = host and now = "clock 1"]
    keys tracked
  have "\<exists>m'. trackedKeys (step host (clock 1) (KeyUp ''a'') keyboard_panel) = Some m'
              \<and> map_option value (map_of m' ''a'') = Some 0"
    by blast
  then have up: "map_option value
         (map_of (the (trackedKeys (step host (clock 1) (KeyUp ''a'') keyboard_panel))) ''a'')
       = Some 0"
    by auto
  from key_values_binary [where s = keyboard_panel and m = "[(''a'', held_button 0 0)]"
      and key = "''z''" and ctx = host and now = "clock 1"]
    keys untracked
  have "step host (clock 1) (KeyDown ''z'') keyboard_panel = keyboard_panel
      \<and> step host (clock 1) (KeyUp ''z'') keyboard_panel = keyboard_panel"
    by blast
  with keys tracked untracked up show ?thesis by simp
qed

subsection \<open>The enable switch\<close>

lemma step_kb_off: "step context now (KbSwitch False) s = s\<lparr>kbEnabled := False\<rparr>"
  by (simp add: step_def settle_def run_effects_def Let_def no_fresh_def effect_keyboard_def)

lemma step_key_down_quiet:
  "dataSource (config s) \<noteq> ''keyboard'' \<or> \<not> kbEnabled s \<Longrightarrow>
     step context now (KeyDown key) s = s\<lparr>trackedKeys := handleKeyDown key (trackedKeys s)\<rparr>"
  by (simp add: step_def settle_def run_effects_def Let_def no_fresh_def effect_keyboard_def)

lemma step_key_up_quiet:
  "dataSource (config s) \<noteq> ''keyboard'' \<or> \<not> kbEnabled s \<Longrightarrow>
     step context now (KeyUp key) s = s\<lparr>trackedKeys := handleKeyUp key (trackedKeys s)\<rparr>"
  by (simp add: step_def settle_def run_effects_def Let_def no_fresh_def effect_keyboard_def)

lemma joy_kb_on:
  "\<not> kbEnabled s \<Longrightarrow> dataSource (config s) = ''keyboard'' \<Longrightarrow>
     joy (step context now (KbSwitch True) s) =
       Some \<lparr>header = \<lparr>stamp = now, frame_id = publishFrameId (config s)\<rparr>,
             axes = fst (kb_arrays (trackedKeys s)), buttons = snd (kb_arrays (trackedKeys s))\<rparr>"
  by (simp add: step_def settle_def run_effects_def Let_def no_fresh_def effect_keyboard_def)

text \<open>
  Claim C1 says that the frame built after the keyboard is switched off holds \<open>0\<close> for
  every key. The effect returns before it builds anything: with \<^verbatim>\<open>a\<close> held on button 0,
  the frame after the switch is the frame of the key-down, stamp and \<open>buttons = [1]\<close>
  included.
\<close>

theorem disable_gate_counterexample:
  "joy (run host (mount host (clock 0) (saved ''keyboard'' False ''/joy'') [(''a'', button_key 0)])
          [(clock 1, KeyDown ''a'')])
     = Some \<lparr>header = \<lparr>stamp = clock 1, frame_id = []\<rparr>, axes = [], buttons = [1]\<rparr>
   \<and> joy (run host (mount host (clock 0) (saved ''keyboard'' False ''/joy'') [(''a'', button_key 0)])
          [(clock 1, KeyDown ''a''), (clock 2, KbSwitch False)])
     = Some \<lparr>header = \<lparr>stamp = clock 1, frame_id = []\<rparr>, axes = [], buttons = [1]\<rparr>"
  by code_simp

text \<open>
  Claim C1, amended. Switching the keyboard off while keys are held builds no frame: the
  state is the old one but for the switch, so the emitted frame stays as it was and the key
  table is not cleared. While the keyboard is off, a key event changes the key table as
  its handler says and nothing else, the emitted frame included. Switching it on again,
  with the keyboard as the data source, builds at once the frame of the key table as it is
  then, held keys included.
\<close>

theorem disable_gate:
  "step ctx now (KbSwitch False) s = s\<lparr>kbEnabled := False\<rparr>
   \<and> (\<not> kbEnabled s \<longrightarrow>
        step ctx now (KeyDown key) s = s\<lparr>trackedKeys := handleKeyDown key (trackedKeys s)\<rparr>
      \<and> step ctx now (KeyUp key) s = s\<lparr>trackedKeys := handleKeyUp key (trackedKeys s)\<rparr>)
   \<and> (\<not> kbEnabled s \<and> dataSource (config s) = ''keyboard'' \<longrightarrow>
        joy (step ctx now (KbSwitch True) s) =
          Some \<lparr>header = \<lparr>stamp = now, frame_id = publishFrameId (config s)\<rparr>,
                axes = fst (kb_arrays (trackedKeys s)),
                buttons = snd (kb_arrays (trackedKeys s))\<rparr>)"
proof -
  have off: "step ctx now (KbSwitch False) s = s\<lparr>kbEnabled := False\<rparr>"
    by (rule step_kb_off)
  have observed:
    "step ctx now (KeyDown key) s = s\<lparr>trackedKeys := handleKeyDown key (trackedKeys s)\<rparr>
     \<and> step ctx now (KeyUp key) s = s\<lparr>trackedKeys := handleKeyUp key (trackedKeys s)\<rparr>"
    if "\<not> kbEnabled s"
    using that by (simp add: step_key_down_quiet step_key_up_quiet)
  have on: "joy (step ctx now (KbSwitch True) s) =
          Some \<lparr>header = \<lparr>stamp = now, frame_id = publishFrameId (config s)\<rparr>,
                axes = fst (kb_arrays (trackedKeys s)),
                buttons = snd (kb_arrays (trackedKeys s))\<rparr>"
    if "\<not> kbEnabled s" "dataSource (config s) = ''keyboard''"
    using that by (rule joy_kb_on)
  from off observed on show ?thesis by blast
qed

text \<open>
  The theorem at the panel of the counterexample: while off, a key-up of \<^verbatim>\<open>a\<close> is
  recorded and leaves the frame; switching on gives the frame with the held key.
\<close>

theorem disable_gate_witness:
  "\<not> kbEnabled held_then_disabled
   \<and> dataSource (config held_then_disabled) = ''keyboard''
   \<and> trackedKeys held_then_disabled = Some [(''a'', held_button 0 1)]
   \<and> joy (step host (clock 3) (KeyUp ''a'') held_then_disabled) = joy held_then_disabled
   \<and> trackedKeys (step host (clock 3) (KeyUp ''a'') held_then_disabled)
       = Some [(''a'', held_button 0 0)]
   \<and> joy (step host (clock 3) (KbSwitch True) held_then_disabled)
       = Some \<lparr>header = \<lparr>stamp = clock 3, frame_id = []\<rparr>, axes = [], buttons = [1]\<rparr>"
proof -
  have off: "\<not> kbEnabled held_then_disabled"
    and kb: "dataSource (config held_then_disabled) = ''keyboard''"
    and keys: "trackedKeys held_then_disabled = Some [(''a'', held_button 0 1)]"
    and fid: "publishFrameId (config held_then_disabled) = []"
    by code_simp+
  note gate = disable_gate [of host "clock 3" held_then_disabled "''a''"]
  from gate off have up: "step host (clock 3) (KeyUp ''a'') held_then_disabled
      = held_then_disabled\<lparr>trackedKeys := handleKeyUp ''a'' (trackedKeys held_then_disabled)\<rparr>"
    by blast
  from gate off kb have on: "joy (step host (clock 3) (KbSwitch True) held_then_disabled) =
      Some \<lparr>header = \<lparr>stamp = clock 3, frame_id = publishFrameId (config held_then_disabled)\<rparr>,
            axes = fst (kb_arrays (trackedKeys held_then_disabled)),
            buttons = snd (kb_arrays (trackedKeys held_then_disabled))\<rparr>"
    by blast
  have arrays: "kb_arrays (Some [(''a'', held_button 0 1)]) = ([], [1])"
    and released: "handleKeyUp ''a'' (Some [(''a'', held_button 0 1)]) = Some [(''a'', held_button 0 0)]"
    by code_simp+
  from off kb keys show ?thesis
    by (simp add: up on fid arrays released)
qed

subsection \<open>Keys while the gamepad is the source\<close>








text \<open>
  The second guard of the keyboard effect stays in force across the switch of the source:
  with the keyboard switched off, the switch to the keyboard builds no frame.
\<close>

lemma gate_off_switch_builds_nothing:
  "\<not> kbEnabled s \<Longrightarrow>
     joy (step context now (Settings ((config s)\<lparr>dataSource := ''keyboard''\<rparr>)) s) = joy s"
  by (simp add: step_def settle_def run_effects_def Let_def no_fresh_def effect_keyboard_def)

subsection \<open>Replay\<close>

text \<open>
  Claim C7. When a render delivers messages of the replayed topic, the frame produced from
  the latest of them has the configured output frame id, whatever the frame id of the
  message, the stamp of the message, and the axes and buttons of the message, element for
  element.
\<close>

theorem replay_pass_through:
  assumes "ms \<noteq> []"
  shows "joy (step ctx now (OnRender (Some ms)) s) =
     Some \<lparr>header = \<lparr>stamp = stamp (header (last ms)), frame_id = publishFrameId (config s)\<rparr>,
           axes = axes (last ms), buttons = buttons (last ms)\<rparr>"
proof -
  let ?frame = "\<lparr>header = \<lparr>stamp = stamp (header (last ms)), frame_id = publishFrameId (config s)\<rparr>,
                 axes = axes (last ms), buttons = buttons (last ms)\<rparr>"
  let ?s1 = "s\<lparr>messages := Some ms\<rparr>"
  let ?fr1 = "no_fresh\<lparr>fresh_messages := True\<rparr>"
  from assms have replayed: "effect_replay (Some ms) (publishFrameId (config s)) = Some ?frame"
    by (simp add: effect_replay_def)
  have delivered: "dispatch now (OnRender (Some ms)) s = (?s1, ?fr1)"
    by simp
  have first: "joy (fst (run_effects ctx now False s ?fr1 ?s1)) = Some ?frame"
    by (simp add: run_effects_def Let_def no_fresh_def replayed)
  have second: "joy (fst (run_effects ctx now False cur (snd (run_effects ctx now False s ?fr1 ?s1)) s2))
      = joy s2" if "config s2 = config cur" "kbEnabled s2 = kbEnabled cur" for cur s2
    using that by (simp add: run_effects_def Let_def no_fresh_def)
  show ?thesis
    unfolding step_def delivered
    by (simp add: settle_fst second first del: dispatch.simps)
qed

text \<open>
  The theorem at a panel that replays with output frame id \<^verbatim>\<open>Y\<close>, for a render with two
  messages, the latest with frame id \<^verbatim>\<open>X\<close>.
\<close>

theorem replay_pass_through_witness:
  "[inbound ''W'' [0] [1], inbound ''X'' [1/2, -1] [0, 1, 1]] \<noteq> []
   \<and> publishFrameId (config replay_panel) = ''Y''
   \<and> dataSource (config replay_panel) = ''sub-joy-topic''
   \<and> joy (step host (clock 9)
             (OnRender (Some [inbound ''W'' [0] [1], inbound ''X'' [1/2, -1] [0, 1, 1]]))
             replay_panel)
       = Some \<lparr>header = \<lparr>stamp = clock 7, frame_id = ''Y''\<rparr>,
               axes = [1/2, -1], buttons = [0, 1, 1]\<rparr>"
proof -
  let ?ms = "[inbound ''W'' [0] [1], inbound ''X'' [1/2, -1] [0, 1, 1]]"
  have ne: "?ms \<noteq> []" by simp
  have fid: "publishFrameId (config replay_panel) = ''Y''"
    and src: "dataSource (config replay_panel) = ''sub-joy-topic''"
    by code_simp+
  from replay_pass_through [OF ne, of host "clock 9" replay_panel] ne fid src
  show ?thesis by (simp add: inbound_def)
qed

subsection \<open>Changing the publish topic\<close>

lemma pub_settled_step: "pub_settled s \<Longrightarrow> pub_settled (step context now ev s)"
  by (auto simp: pub_settled_def step_fst pubTopic_settle pubTopic_dispatch config_dispatch
           split: event.splits)

lemma pub_settled_mount: "pub_settled (mount context now initialState entries)"
  by (simp add: pub_settled_def mount_def Let_def pubTopic_settle)

lemma pub_settled_run: "pub_settled s \<Longrightarrow> pub_settled (run context s evs)"
  by (induction evs arbitrary: s) (auto simp: pub_settled_step)

text \<open>
  Claim C8. In a state reached from the start of the panel in which publishing is on and
  the topic is \<^verbatim>\<open>/a\<close>, on a host that has \<^verbatim>\<open>advertise\<close> and \<^verbatim>\<open>unadvertise\<close>, changing the
  topic to \<^verbatim>\<open>/b\<close> adds to the calls one \<^verbatim>\<open>unadvertise("/a")\<close>, then one
  \<^verbatim>\<open>advertise("/b", "sensor_msgs/Joy")\<close>, and after them only the publication of the
  current frame on \<^verbatim>\<open>/b\<close>.
\<close>

theorem topic_switch:
  assumes host: "has_advertise ctx" "has_unadvertise ctx"
    and reach: "s = run ctx (mount ctx t0 initialState entries) evs"
    and on: "publishMode (config s)" and a: "pubJoyTopic (config s) = ''/a''"
  shows "calls (step ctx now (Settings ((config s)\<lparr>pubJoyTopic := ''/b''\<rparr>)) s) =
           calls s @ [Unadvertise ''/a'', Advertise ''/b'' ''sensor_msgs/Joy'']
                   @ (if has_publish ctx then [Publish ''/b'' (joy s)] else [])"
proof -
  from reach have "pub_settled s" by (simp add: pub_settled_run pub_settled_mount)
  with on a have old: "pubTopic s = Some ''/a''" by (simp add: pub_settled_def)
  from host on a old show ?thesis
    by (simp add: step_def settle_def run_effects_def Let_def no_fresh_def
          effect_advertise_def effect_publish_def)
qed

text \<open>The theorem at a panel started with publishing on and the topic \<^verbatim>\<open>/a\<close>.\<close>

theorem topic_switch_witness:
  "has_advertise host \<and> has_unadvertise host
   \<and> publishMode (config publishing_panel) \<and> pubJoyTopic (config publishing_panel) = ''/a''
   \<and> calls (step host (clock 1) (Settings ((config publishing_panel)\<lparr>pubJoyTopic := ''/b''\<rparr>))
              publishing_panel)
       = calls publishing_panel
         @ [Unadvertise ''/a'', Advertise ''/b'' ''sensor_msgs/Joy'',
            Publish ''/b'' (joy publishing_panel)]"
proof -
  have host: "has_advertise host" "has_unadvertise host" "has_publish host"
    by (simp_all add: host_def)
  have on: "publishMode (config publishing_panel)"
    and a: "pubJoyTopic (config publishing_panel) = ''/a''"
    by code_simp+
  from topic_switch [OF host(1,2) publishing_panel_def on a, of "clock 1"] host on a
  show ?thesis by simp
qed

end
